theory Spec2Isabelle
  imports Main
begin

section \<open>CSVDataValidator.py: data model\<close>

text \<open>
  Python strings are sequences of code points; a field is modelled as a \<open>string\<close> whose
  characters stand for the code points 0..255. Python integers are \<open>int\<close>. Every
  exception and every \<open>sys.exit\<close> of the source is a value of \<open>error\<close>, and a function
  that can raise returns \<open>error + 'a\<close> with \<open>Inl\<close> for the exception.
\<close>

datatype error =
    KeyError
  | ValueError
  | IndexError
  | ReError
  | StopIteration
  | SysExit string

text \<open>
  One entry of \<open>validatorDict["validators"]\<close>. The keys \<open>"type"\<close> and
  \<open>"allowEmptyFields"\<close> belong to the common format of every validator; the type specific
  keys may be absent, and reading an absent key raises \<open>KeyError\<close>. A compiled regular
  expression is represented by its \<open>match\<close> method: \<open>True\<close> when \<open>match\<close> returns a match
  object, \<open>False\<close> when it returns \<open>None\<close>.
\<close>

record fieldValidator =
  vtype :: string
  allowEmptyFields :: bool
  strings :: "string list option"
  regex :: "string option"
  compiledRegex :: "(string \<Rightarrow> bool) option"
  validate :: "bool option"
  checkNumeric :: "bool option"
  lengthRange :: "(int \<times> int) option"

text \<open>
  The argument of the constructor: a dictionary with the keys \<open>"name"\<close> and
  \<open>"validators"\<close>. The inner dictionary keeps its insertion order, so it is an association
  list from field number to validator.
\<close>

record validatorDict =
  dictName :: "string option"
  dictValidators :: "(int \<times> fieldValidator) list option"

text \<open>The attributes of an instance of the class \<open>CSVDataValidator\<close>.\<close>

record csvDataValidator =
  name :: string
  validators :: "(int \<times> fieldValidator) list"
  numFields :: int
  maxEmptyFields :: int
  badFieldCounters :: "int \<rightharpoonup> int"
  fieldNames :: "int \<rightharpoonup> string"

section \<open>Characters and strings\<close>

text \<open>\<open>str.isspace\<close> on the code points 0..255.\<close>

definition isspace :: "char \<Rightarrow> bool" where
  "isspace c = (of_char c \<in> set [9, 10, 11, 12, 13, 28, 29, 30, 31, 32, 133, 160 :: nat])"

text \<open>The characters that \<open>int\<close> accepts as a one character string: the decimal digits.\<close>

definition isdecimal :: "char \<Rightarrow> bool" where
  "isdecimal c = (48 \<le> (of_char c :: nat) \<and> (of_char c :: nat) \<le> 57)"

text \<open>\<open>str.isdigit\<close> on one code point: the decimal digits and the superscripts 1, 2, 3.\<close>

definition isdigit_char :: "char \<Rightarrow> bool" where
  "isdigit_char c = (isdecimal c \<or> of_char c \<in> set [178, 179, 185 :: nat])"

text \<open>\<open>str.isdigit\<close>: at least one character and all of them digits.\<close>

definition isdigit :: "string \<Rightarrow> bool" where
  "isdigit s = (s \<noteq> [] \<and> list_all isdigit_char s)"

text \<open>\<open>str.strip()\<close>: leading and trailing whitespace removed.\<close>

definition strip :: "string \<Rightarrow> string" where
  "strip s = rev (dropWhile isspace (rev (dropWhile isspace s)))"

text \<open>\<open>int(digit)\<close> for a one character string \<open>digit\<close>.\<close>

definition int_of_digit :: "char \<Rightarrow> error + int" where
  "int_of_digit c = (if isdecimal c then Inr (int (of_char c) - 48) else Inl ValueError)"

text \<open>The comprehension \<open>[int(digit) for digit in field]\<close>, which stops at the first
  character that \<open>int\<close> refuses.\<close>

fun digits :: "string \<Rightarrow> error + int list" where
  "digits [] = Inr []"
| "digits (c # cs) =
     (case int_of_digit c of
        Inl e \<Rightarrow> Inl e
      | Inr d \<Rightarrow> (case digits cs of Inl e \<Rightarrow> Inl e | Inr ds \<Rightarrow> Inr (d # ds)))"

section \<open>The constructor\<close>

text \<open>
  The loop of \<open>__init__\<close> over \<open>self.validators.items()\<close>: every field number gets a
  counter 0, and a validator of type \<open>'re'\<close> gets its compiled pattern. \<open>re.compile\<close>
  belongs to the Python library and is the parameter \<open>re_compile\<close> (\<open>None\<close> when it raises
  \<open>re.error\<close>).
\<close>

fun init_loop ::
  "(string \<Rightarrow> (string \<Rightarrow> bool) option) \<Rightarrow> (int \<times> fieldValidator) list \<Rightarrow> (int \<rightharpoonup> int)
     \<Rightarrow> error + ((int \<times> fieldValidator) list \<times> (int \<rightharpoonup> int))" where
  "init_loop re_compile [] counters = Inr ([], counters)"
| "init_loop re_compile ((fieldNum, validator) # rest) counters =
     (let counters' = counters(fieldNum \<mapsto> 0) in
      if vtype validator = ''re'' then
        (case regex validator of
           None \<Rightarrow> Inl KeyError
         | Some pattern \<Rightarrow>
             (case re_compile pattern of
                None \<Rightarrow> Inl ReError
              | Some m \<Rightarrow>
                  (case init_loop re_compile rest counters' of
                     Inl e \<Rightarrow> Inl e
                   | Inr (vs, c) \<Rightarrow>
                       Inr ((fieldNum, validator\<lparr>compiledRegex := Some m\<rparr>) # vs, c))))
      else
        (case init_loop re_compile rest counters' of
           Inl e \<Rightarrow> Inl e
         | Inr (vs, c) \<Rightarrow> Inr ((fieldNum, validator) # vs, c)))"

definition init ::
  "(string \<Rightarrow> (string \<Rightarrow> bool) option) \<Rightarrow> validatorDict \<Rightarrow> error + csvDataValidator" where
  "init re_compile vd =
     (if dictName vd \<noteq> None \<or> dictValidators vd \<noteq> None then
        (case dictName vd of
           None \<Rightarrow> Inl KeyError
         | Some n \<Rightarrow>
             (case dictValidators vd of
                None \<Rightarrow> Inl KeyError
              | Some vs \<Rightarrow>
                  (case init_loop re_compile vs Map.empty of
                     Inl e \<Rightarrow> Inl e
                   | Inr (vs', counters) \<Rightarrow>
                       Inr \<lparr> name = n, validators = vs',
                             numFields = int (length vs),
                             maxEmptyFields = int (length vs) - 1,
                             badFieldCounters = counters,
                             fieldNames = Map.empty \<rparr>)))
      else Inl (SysExit ''CSVDataValidator class instantiated with empty validatorList''))"

text \<open>\<open>getHeaderNames\<close>: the header labels are stored by position.\<close>

fun header_loop :: "(int \<rightharpoonup> string) \<Rightarrow> string list \<Rightarrow> nat \<Rightarrow> (int \<rightharpoonup> string)" where
  "header_loop names [] index = names"
| "header_loop names (label # rest) index = header_loop (names(int index \<mapsto> label)) rest (Suc index)"

definition getHeaderNames :: "csvDataValidator \<Rightarrow> string list \<Rightarrow> csvDataValidator" where
  "getHeaderNames self row =
     (if length row > 0 then self\<lparr>fieldNames := header_loop (fieldNames self) row 0\<rparr>
      else self)"

section \<open>The field validators\<close>

definition validateString :: "fieldValidator \<Rightarrow> string \<Rightarrow> error + bool" where
  "validateString fv field =
     (if length field = 0 then
        (if allowEmptyFields fv = False then Inr False else Inr True)
      else
        (case strings fv of
           None \<Rightarrow> Inl KeyError
         | Some bad \<Rightarrow> if field \<in> set bad then Inr False else Inr True))"

definition validateRegex :: "fieldValidator \<Rightarrow> string \<Rightarrow> error + bool" where
  "validateRegex fv field =
     (if length field = 0 then
        (if allowEmptyFields fv = False then Inr False else Inr True)
      else
        (case compiledRegex fv of
           None \<Rightarrow> Inl KeyError
         | Some m \<Rightarrow> if m field = False then Inr False else Inr True))"

definition validateABAChecksum :: "fieldValidator \<Rightarrow> string \<Rightarrow> error + bool" where
  "validateABAChecksum fv field =
     (let fieldLength = length field in
      if fieldLength = 0 then
        (if allowEmptyFields fv = False then Inr False else Inr True)
      else
        (case validate fv of
           None \<Rightarrow> Inl KeyError
         | Some v \<Rightarrow>
             if v then
               (if fieldLength \<noteq> 9 then Inr False
                else
                  (case digits field of
                     Inl e \<Rightarrow> Inl e
                   | Inr d \<Rightarrow>
                       (let result = (3 * (d ! 0 + d ! 3 + d ! 6) + 7 * (d ! 1 + d ! 4 + d ! 7)
                                       + (d ! 2 + d ! 5 + d ! 8)) mod 10 in
                        if result \<noteq> 0 then Inr False else Inr True)))
             else Inr True))"

definition validateLength :: "fieldValidator \<Rightarrow> string \<Rightarrow> error + bool" where
  "validateLength fv field =
     (let fieldLength = length field in
      if fieldLength = 0 then
        (if allowEmptyFields fv = False then Inr False else Inr True)
      else
        (case checkNumeric fv of
           None \<Rightarrow> Inl KeyError
         | Some cn \<Rightarrow>
             if cn \<and> fieldLength > 0 \<and> isdigit field \<noteq> True then Inr False
             else
               (case lengthRange fv of
                  None \<Rightarrow> Inl KeyError
                | Some (lo, hi) \<Rightarrow>
                    if lo \<noteq> 0 \<and> int fieldLength < lo then Inr False
                    else if hi \<noteq> - 1 \<and> int fieldLength > hi then Inr False
                    else Inr True)))"

definition validateField :: "csvDataValidator \<Rightarrow> int \<Rightarrow> string \<Rightarrow> error + bool" where
  "validateField self fieldIndex field =
     (case map_of (validators self) fieldIndex of
        None \<Rightarrow> Inr True
      | Some fv \<Rightarrow>
          if vtype fv = ''str'' then validateString fv field
          else if vtype fv = ''re'' then validateRegex fv field
          else if vtype fv = ''len'' then validateLength fv field
          else if vtype fv = ''aba'' then validateABAChecksum fv field
          else Inl (SysExit (''ERROR!! BAD Validator Type'' @ vtype fv)))"

section \<open>Row validation\<close>

text \<open>
  The loop of \<open>validateRow\<close> over \<open>range(len(row))\<close>: the fields still to visit, the index
  of the first of them and the number of empty fields seen so far. The result is the
  returned integer (\<open>-1\<close> good row, \<open>-3\<close> too many empty fields, otherwise the index of
  the field that failed) with the instance as the call leaves it.
\<close>

fun validateRow_loop ::
  "csvDataValidator \<Rightarrow> string list \<Rightarrow> nat \<Rightarrow> int \<Rightarrow> error + (int \<times> csvDataValidator)" where
  "validateRow_loop self [] index numEmptyFields = Inr (- 1, self)"
| "validateRow_loop self (raw # rest) index numEmptyFields =
     (let field = strip raw in
      case validateField self (int index) field of
        Inl e \<Rightarrow> Inl e
      | Inr ok \<Rightarrow>
          if ok \<noteq> True then
            (case badFieldCounters self (int index) of
               None \<Rightarrow> Inl KeyError
             | Some n \<Rightarrow>
                 Inr (int index,
                      self\<lparr>badFieldCounters := (badFieldCounters self)(int index \<mapsto> n + 1)\<rparr>))
          else if length field = 0 then
            (if numEmptyFields + 1 \<ge> maxEmptyFields self then Inr (- 3, self)
             else validateRow_loop self rest (Suc index) (numEmptyFields + 1))
          else validateRow_loop self rest (Suc index) numEmptyFields)"

definition validateRow :: "csvDataValidator \<Rightarrow> string list \<Rightarrow> error + (int \<times> csvDataValidator)" where
  "validateRow self row =
     (if name self = ''novalidate'' then Inr (- 1, self)
      else if length row \<noteq> length (validators self) then Inr (- 2, self)
      else validateRow_loop self row 0 0)"

section \<open>The main program loop\<close>

text \<open>
  The record source is the list of the records of the input file, the two record sinks are
  the lists of the records written so far. The script builds every configured validator
  with the constructor, picks the one named on the command line and runs the loop below
  with it. The summary printed after the loop is not part of the model.
\<close>

record runState =
  currentValidator :: csvDataValidator
  goodDataFile :: "string list list"
  badDataFile :: "string list list"
  goodRowCounter :: int
  badRowCounter :: int
  totalRowCounter :: int

text \<open>\<open>row[result]\<close> for a Python integer \<open>result\<close>; a negative index counts from the end.\<close>

definition py_index :: "'a list \<Rightarrow> int \<Rightarrow> error + 'a" where
  "py_index xs i =
     (if 0 \<le> i \<and> i < int (length xs) then Inr (xs ! nat i)
      else if - int (length xs) \<le> i \<and> i < 0 then Inr (xs ! nat (int (length xs) + i))
      else Inl IndexError)"

text \<open>\<open>str(n)\<close> for a length \<open>n\<close>.\<close>

fun str_nat :: "nat \<Rightarrow> string" where
  "str_nat n =
     (if n < 10 then [char_of (48 + n)]
      else str_nat (n div 10) @ [char_of (48 + n mod 10)])"

declare str_nat.simps [simp del]

text \<open>
  The body of the loop over the data rows. The result is the exception that ended the
  program, if any, and the state at that moment.
\<close>

definition process_row :: "runState \<Rightarrow> string list \<Rightarrow> error option \<times> runState" where
  "process_row st row =
     (let st1 = st\<lparr>totalRowCounter := totalRowCounter st + 1\<rparr> in
      case validateRow (currentValidator st1) row of
        Inl e \<Rightarrow> (Some e, st1)
      | Inr (result, cv) \<Rightarrow>
          (let st2 = st1\<lparr>currentValidator := cv\<rparr> in
           if result = - 1 then
             (None, st2\<lparr>goodRowCounter := goodRowCounter st2 + 1,
                         goodDataFile := goodDataFile st2 @ [row]\<rparr>)
           else if result = - 2 then
             (None, st2\<lparr>badRowCounter := badRowCounter st2 + 1,
                         badDataFile := badDataFile st2 @ [row @ [''INCORRECT NUMBER OF FIELDS'']]\<rparr>)
           else if result = - 3 then
             (None, st2\<lparr>badRowCounter := badRowCounter st2 + 1,
                         badDataFile := badDataFile st2 @ [row @ [''TOO MANY EMPTY FIELDS'']]\<rparr>)
           else
             (let st3 = st2\<lparr>badRowCounter := badRowCounter st2 + 1\<rparr> in
              case py_index row result of
                Inl e \<Rightarrow> (Some e, st3)
              | Inr raw \<Rightarrow>
                  (case fieldNames cv result of
                     None \<Rightarrow> (Some KeyError, st3)
                   | Some label \<Rightarrow>
                       if length raw > 0 then
                         (None, st3\<lparr>badDataFile := badDataFile st3 @
                            [row @ [''BAD DATA IN FIELD: '' @ label @ '' VALUE: '' @ raw]]\<rparr>)
                       else
                         (None, st3\<lparr>badDataFile := badDataFile st3 @
                            [row @ [''BAD DATA IN FIELD: '' @ label @ '' VALUE: EMPTY'']]\<rparr>)))))"

fun run_rows :: "runState \<Rightarrow> string list list \<Rightarrow> error option \<times> runState" where
  "run_rows st [] = (None, st)"
| "run_rows st (row # rest) =
     (case process_row st row of
        (Some e, st') \<Rightarrow> (Some e, st')
      | (None, st') \<Rightarrow> run_rows st' rest)"

text \<open>
  The program from the choice of the validator on: the header row is read, its length is
  checked unless the validator is \<open>novalidate\<close>, both output files get their header, and
  the data rows are processed in order.
\<close>

definition run :: "csvDataValidator \<Rightarrow> string list list \<Rightarrow> error option \<times> runState" where
  "run cv input =
     (let st0 = \<lparr> currentValidator = cv, goodDataFile = [], badDataFile = [],
                  goodRowCounter = 0, badRowCounter = 0, totalRowCounter = 0 \<rparr> in
      case input of
        [] \<Rightarrow> (Some StopIteration, st0)
      | headerRow # rows \<Rightarrow>
          if name cv \<noteq> ''novalidate'' \<and> length headerRow \<noteq> length (validators cv) then
            (Some (SysExit (''Number of fields in input does not match '' @ name cv @
                            '' config. Got:'' @ str_nat (length headerRow) @
                            '' Expected:'' @ str_nat (length (validators cv)))), st0)
          else
            run_rows (st0\<lparr>currentValidator := getHeaderNames cv headerRow,
                           goodDataFile := [headerRow],
                           badDataFile := [headerRow @ [''ERROR_MESSAGE'']]\<rparr>) rows)"

section \<open>Auxiliary notions\<close>

text \<open>The number of fields of a row that are empty once stripped.\<close>

definition numEmpty :: "string list \<Rightarrow> nat" where
  "numEmpty row = length (filter (\<lambda>raw. strip raw = []) row)"

text \<open>
  What the constructor establishes and every method keeps: the two derived counts, one
  failure counter per configured field number, and field numbers that are the keys of a
  dictionary.
\<close>

definition validator_inv :: "csvDataValidator \<Rightarrow> bool" where
  "validator_inv self =
     (numFields self = int (length (validators self)) \<and>
      maxEmptyFields self = numFields self - 1 \<and>
      dom (badFieldCounters self) = fst ` set (validators self) \<and>
      distinct (map fst (validators self)))"

text \<open>The four validator types that \<open>validateField\<close> dispatches on.\<close>

definition known_type :: "string \<Rightarrow> bool" where
  "known_type t = (t \<in> set [''str'', ''re'', ''len'', ''aba''])"

text \<open>The value of a decimal digit and the weighted sum of an ABA routing number.\<close>

definition digit_value :: "char \<Rightarrow> int" where
  "digit_value c = int (of_char c) - 48"

definition aba_sum :: "string \<Rightarrow> int" where
  "aba_sum f =
     (3 * (digit_value (f ! 0) + digit_value (f ! 3) + digit_value (f ! 6))
      + 7 * (digit_value (f ! 1) + digit_value (f ! 4) + digit_value (f ! 7))
      + (digit_value (f ! 2) + digit_value (f ! 5) + digit_value (f ! 8))) mod 10"

text \<open>
  What the constructor makes of one validator, and the condition under which it gets
  past it: a validator of type \<open>'re'\<close> needs a pattern that compiles and gets the
  compiled pattern; every other validator is left as it is.
\<close>

definition compiled :: "(string \<Rightarrow> (string \<Rightarrow> bool) option) \<Rightarrow> fieldValidator \<Rightarrow> fieldValidator" where
  "compiled re_compile v =
     (if vtype v = ''re'' then
        (case regex v of None \<Rightarrow> v | Some pattern \<Rightarrow> v\<lparr>compiledRegex := re_compile pattern\<rparr>)
      else v)"

definition regex_ok :: "(string \<Rightarrow> (string \<Rightarrow> bool) option) \<Rightarrow> fieldValidator \<Rightarrow> bool" where
  "regex_ok re_compile v =
     (if vtype v = ''re'' then
        (case regex v of None \<Rightarrow> False | Some pattern \<Rightarrow> re_compile pattern \<noteq> None)
      else True)"

section \<open>Example configurations\<close>

text \<open>A validator with the two common keys only.\<close>

definition rule :: "string \<Rightarrow> bool \<Rightarrow> fieldValidator" where
  "rule t e = \<lparr> vtype = t, allowEmptyFields = e, strings = None, regex = None,
                compiledRegex = None, validate = None, checkNumeric = None,
                lengthRange = None \<rparr>"

text \<open>A stand-in for \<open>re.compile\<close> that accepts no pattern; the examples have no regex.\<close>

definition no_compile :: "string \<Rightarrow> (string \<Rightarrow> bool) option" where
  "no_compile pattern = None"

definition instance_of :: "string \<Rightarrow> (int \<times> fieldValidator) list \<Rightarrow> csvDataValidator" where
  "instance_of n vs =
     \<lparr> name = n, validators = vs, numFields = int (length vs),
       maxEmptyFields = int (length vs) - 1,
       badFieldCounters = fold (\<lambda>(k, v) counters. counters(k \<mapsto> 0)) vs Map.empty,
       fieldNames = Map.empty \<rparr>"

text \<open>The employee configuration of the script without its regex column.\<close>

definition sampleRules :: "(int \<times> fieldValidator) list" where
  "sampleRules =
     [(0, (rule ''str'' False)\<lparr>strings := Some []\<rparr>),
      (1, (rule ''aba'' True)\<lparr>validate := Some True\<rparr>),
      (2, (rule ''len'' True)\<lparr>checkNumeric := Some True, lengthRange := Some (4, - 1)\<rparr>)]"

definition sample :: csvDataValidator where
  "sample = instance_of ''sample'' sampleRules"

text \<open>Two columns: the first may be empty, the second may not.\<close>

definition pairRules :: "(int \<times> fieldValidator) list" where
  "pairRules =
     [(0, (rule ''str'' True)\<lparr>strings := Some []\<rparr>),
      (1, (rule ''str'' False)\<lparr>strings := Some []\<rparr>)]"

definition pair :: csvDataValidator where
  "pair = instance_of ''pair'' pairRules"

text \<open>One column that may not be empty.\<close>

definition singleRules :: "(int \<times> fieldValidator) list" where
  "singleRules = [(0, (rule ''str'' False)\<lparr>strings := Some []\<rparr>)]"

definition single :: csvDataValidator where
  "single = instance_of ''single'' singleRules"

text \<open>The validator that performs no checking.\<close>

definition noValidate :: csvDataValidator where
  "noValidate = instance_of ''novalidate'' []"


text \<open>The state of a run with the sample configuration once the header is written.\<close>

definition sampleRun :: runState where
  "sampleRun = \<lparr> currentValidator = getHeaderNames sample [''name'', ''aba'', ''code''],
                 goodDataFile = [[''name'', ''aba'', ''code'']],
                 badDataFile = [[''name'', ''aba'', ''code'', ''ERROR_MESSAGE'']],
                 goodRowCounter = 0, badRowCounter = 0, totalRowCounter = 0 \<rparr>"

text \<open>
  A stand-in for \<open>re.compile\<close> that accepts every pattern, the compiled pattern matching
  every field.
\<close>

definition any_compile :: "string \<Rightarrow> (string \<Rightarrow> bool) option" where
  "any_compile pattern = Some (\<lambda>field. True)"

text \<open>
  Three columns: a string validator, a regex validator and a validator of a type that
  does not exist; the instance the constructor builds from them, and the state of a run
  with it once the header is written.
\<close>

definition mixedRules :: "(int \<times> fieldValidator) list" where
  "mixedRules =
     [(0, (rule ''str'' False)\<lparr>strings := Some []\<rparr>),
      (1, (rule ''re'' False)\<lparr>regex := Some ''x''\<rparr>),
      (2, rule ''bogus'' True)]"

definition mixed :: csvDataValidator where
  "mixed = (instance_of ''mixed'' mixedRules)
             \<lparr>validators := map (\<lambda>(k, v). (k, compiled any_compile v)) mixedRules\<rparr>"

definition mixedRun :: runState where
  "mixedRun = \<lparr> currentValidator = getHeaderNames mixed [''name'', ''ssn'', ''code''],
                goodDataFile = [[''name'', ''ssn'', ''code'']],
                badDataFile = [[''name'', ''ssn'', ''code'', ''ERROR_MESSAGE'']],
                goodRowCounter = 0, badRowCounter = 0, totalRowCounter = 0 \<rparr>"

section \<open>Basic facts\<close>

lemma strip_Nil: "strip [] = []"
  by (simp add: strip_def)

lemma strip_all_space: "list_all isspace s \<Longrightarrow> strip s = []"
proof -
  assume "list_all isspace s"
  then have h: "dropWhile isspace s = []" by (induction s) simp_all
  show ?thesis unfolding strip_def h by simp
qed

lemma digits_decimal: "list_all isdecimal s \<Longrightarrow> digits s = Inr (map digit_value s)"
  by (induction s) (simp_all add: int_of_digit_def digit_value_def)

lemma digits_not_decimal: "\<not> list_all isdecimal s \<Longrightarrow> digits s = Inl ValueError"
  by (induction s) (auto simp: int_of_digit_def split: sum.splits)

lemma aba_digits:
  assumes "validate fv = Some True" "length field = 9" "list_all isdecimal field"
  shows "validateABAChecksum fv field = Inr (aba_sum field = 0)"
proof -
  have d: "digits field = Inr (map digit_value field)" using assms(3) by (rule digits_decimal)
  from assms(1,2) show ?thesis
    by (simp add: validateABAChecksum_def d aba_sum_def Let_def)
qed

lemma numEmpty_Nil: "numEmpty [] = 0"
  by (simp add: numEmpty_def)

lemma numEmpty_Cons:
  "numEmpty (f # fs) = (if strip f = [] then Suc (numEmpty fs) else numEmpty fs)"
  by (simp add: numEmpty_def)

lemma getHeaderNames_name: "name (getHeaderNames self row) = name self"
  by (simp add: getHeaderNames_def)

subsection \<open>The loop of validateRow\<close>

text \<open>
  A run of fields that pass their validators and do not use up the allowance of empty
  fields is skipped, with the count of empty fields carried along.
\<close>

lemma loop_prefix:
  "(\<forall>j<length pre. validateField s (int (idx + j)) (strip (pre ! j)) = Inr True) \<Longrightarrow>
   numEmpty pre = 0 \<or> ne + int (numEmpty pre) < maxEmptyFields s \<Longrightarrow>
   validateRow_loop s (pre @ rest) idx ne =
     validateRow_loop s rest (idx + length pre) (ne + int (numEmpty pre))"
proof (induction pre arbitrary: idx ne)
  case Nil
  then show ?case by (simp add: numEmpty_Nil)
next
  case (Cons f pre)
  have h0: "validateField s (int idx) (strip f) = Inr True"
    using Cons.prems(1) [rule_format, of 0] by simp
  have hrest: "\<forall>j<length pre. validateField s (int (Suc idx + j)) (strip (pre ! j)) = Inr True"
    using Cons.prems(1) by (metis Suc_less_eq add_Suc_shift length_Cons nth_Cons_Suc)
  show ?case
  proof (cases "strip f = []")
    case True
    with Cons.prems(2) have b: "ne + 1 + int (numEmpty pre) < maxEmptyFields s"
      by (simp add: numEmpty_Cons)
    then have "numEmpty pre = 0 \<or> (ne + 1) + int (numEmpty pre) < maxEmptyFields s" by simp
    from Cons.IH [OF hrest this] b True h0 show ?thesis
      by (simp add: numEmpty_Cons add.assoc)
  next
    case False
    with Cons.prems(2) have "numEmpty pre = 0 \<or> ne + int (numEmpty pre) < maxEmptyFields s"
      by (simp add: numEmpty_Cons)
    from Cons.IH [OF hrest this] False h0 show ?thesis
      by (simp add: numEmpty_Cons)
  qed
qed

subsection \<open>The run of the validator that performs no checking\<close>

lemma run_rows_novalidate:
  "name (currentValidator st) = ''novalidate'' \<Longrightarrow>
   run_rows st rows =
     (None, st\<lparr>goodDataFile := goodDataFile st @ rows,
               goodRowCounter := goodRowCounter st + int (length rows),
               totalRowCounter := totalRowCounter st + int (length rows)\<rparr>)"
proof (induction rows arbitrary: st)
  case Nil
  then show ?case by simp
next
  case (Cons row rows)
  let ?st' = "st\<lparr>totalRowCounter := totalRowCounter st + 1,
                  goodRowCounter := goodRowCounter st + 1,
                  goodDataFile := goodDataFile st @ [row]\<rparr>"
  have p: "process_row st row = (None, ?st')"
    using Cons.prems by (simp add: process_row_def validateRow_def Let_def)
  have n: "name (currentValidator ?st') = ''novalidate''" using Cons.prems by simp
  show ?case using Cons.IH [OF n] by (simp add: p)
qed

section \<open>Empty fields and the field validators\<close>

text \<open>
  C2. Each of the four validation routines, applied to the empty string, returns the
  validator's \<open>allowEmptyFields\<close> flag, whatever the type specific parameters are (even
  when they are missing), and so does \<open>validateField\<close> at a position whose validator has
  one of the four types.
\<close>

theorem empty_field_returns_allowEmpty:
  "known_type (vtype fv) \<Longrightarrow> map_of (validators self) i = Some fv \<Longrightarrow>
   validateField self i [] = Inr (allowEmptyFields fv) \<and>
   validateString fv [] = Inr (allowEmptyFields fv) \<and>
   validateRegex fv [] = Inr (allowEmptyFields fv) \<and>
   validateLength fv [] = Inr (allowEmptyFields fv) \<and>
   validateABAChecksum fv [] = Inr (allowEmptyFields fv)"
  by (auto simp: known_type_def validateField_def validateString_def validateRegex_def
      validateLength_def validateABAChecksum_def)

theorem empty_field_returns_allowEmpty_witness:
  "known_type (vtype ((rule ''len'' True)\<lparr>checkNumeric := Some True, lengthRange := Some (4, - 1)\<rparr>)) \<and>
   map_of (validators sample) 2 =
     Some ((rule ''len'' True)\<lparr>checkNumeric := Some True, lengthRange := Some (4, - 1)\<rparr>) \<and>
   validateField sample 2 [] = Inr True"
  using empty_field_returns_allowEmpty
    [of "(rule ''len'' True)\<lparr>checkNumeric := Some True, lengthRange := Some (4, - 1)\<rparr>" sample 2]
  by (simp add: known_type_def rule_def sample_def instance_of_def sampleRules_def)

section \<open>The ABA checksum\<close>

text \<open>
  C3. With \<open>validate\<close> set, a field of exactly nine decimal digits passes
  \<open>validateABAChecksum\<close> exactly when its weighted sum is 0 modulo 10, a nonempty field of
  any other length fails, and the routing number 490000018 passes.
\<close>

theorem aba_checksum_correct:
  assumes "validate fv = Some True"
  shows "(length field = 9 \<and> list_all isdecimal field \<longrightarrow>
            validateABAChecksum fv field = Inr (aba_sum field = 0)) \<and>
         (field \<noteq> [] \<and> length field \<noteq> 9 \<longrightarrow> validateABAChecksum fv field = Inr False) \<and>
         validateABAChecksum fv ''490000018'' = Inr True"
proof (intro conjI impI)
  assume "length field = 9 \<and> list_all isdecimal field"
  with assms show "validateABAChecksum fv field = Inr (aba_sum field = 0)"
    by (simp add: aba_digits)
next
  assume "field \<noteq> [] \<and> length field \<noteq> 9"
  with assms show "validateABAChecksum fv field = Inr False"
    by (simp add: validateABAChecksum_def)
next
  have "list_all isdecimal ''490000018''" by (simp add: isdecimal_def)
  with assms have "validateABAChecksum fv ''490000018'' = Inr (aba_sum ''490000018'' = 0)"
    by (simp add: aba_digits)
  then show "validateABAChecksum fv ''490000018'' = Inr True"
    by (simp add: aba_sum_def digit_value_def)
qed

theorem aba_checksum_correct_witness:
  "validate ((rule ''aba'' True)\<lparr>validate := Some True\<rparr>) = Some True \<and>
   length ''123456789'' = 9 \<and> list_all isdecimal ''123456789'' \<and> aba_sum ''123456789'' = 9 \<and>
   validateABAChecksum ((rule ''aba'' True)\<lparr>validate := Some True\<rparr>) ''123456789'' = Inr False \<and>
   validateABAChecksum ((rule ''aba'' True)\<lparr>validate := Some True\<rparr>) ''4900'' = Inr False \<and>
   validateABAChecksum ((rule ''aba'' True)\<lparr>validate := Some True\<rparr>) ''490000018'' = Inr True"
proof -
  have v: "validate ((rule ''aba'' True)\<lparr>validate := Some True\<rparr>) = Some True"
    by (simp add: rule_def)
  have d: "list_all isdecimal ''123456789''" by (simp add: isdecimal_def)
  have s: "aba_sum ''123456789'' = 9" by (simp add: aba_sum_def digit_value_def)
  from aba_checksum_correct [OF v, of "''123456789''"] d s
  have a: "validateABAChecksum ((rule ''aba'' True)\<lparr>validate := Some True\<rparr>) ''123456789'' = Inr False"
    by simp
  from aba_checksum_correct [OF v, of "''4900''"]
  have b: "validateABAChecksum ((rule ''aba'' True)\<lparr>validate := Some True\<rparr>) ''4900'' = Inr False"
    and c: "validateABAChecksum ((rule ''aba'' True)\<lparr>validate := Some True\<rparr>) ''490000018'' = Inr True"
    by simp_all
  from v d s a b c show ?thesis by simp
qed

text \<open>
  C4. With \<open>validate\<close> set, \<open>validateABAChecksum\<close> on a field of nine characters of which
  one is not a decimal digit does not return: \<open>int\<close> raises \<open>ValueError\<close>, which nothing
  catches.
\<close>

theorem aba_non_digit_raises:
  "validate fv = Some True \<Longrightarrow> length field = 9 \<Longrightarrow> \<not> list_all isdecimal field \<Longrightarrow>
   validateABAChecksum fv field = Inl ValueError"
  by (auto simp: validateABAChecksum_def digits_not_decimal)

theorem aba_non_digit_raises_witness:
  "validate ((rule ''aba'' True)\<lparr>validate := Some True\<rparr>) = Some True \<and>
   length ''12345678X'' = 9 \<and> \<not> list_all isdecimal ''12345678X'' \<and>
   validateABAChecksum ((rule ''aba'' True)\<lparr>validate := Some True\<rparr>) ''12345678X'' = Inl ValueError"
  using aba_non_digit_raises [of "(rule ''aba'' True)\<lparr>validate := Some True\<rparr>" "''12345678X''"]
  by (simp add: rule_def isdecimal_def)

section \<open>Row shape and the validator without checks\<close>

text \<open>
  C6. Unless the validator is \<open>novalidate\<close>, a row whose number of fields differs from the
  number of configured validators is answered with \<open>-2\<close> (incorrect number of fields):
  whatever its fields contain, no field is validated, nothing is raised and the instance
  is left as it was.
\<close>

theorem shape_mismatch_first:
  "name self \<noteq> ''novalidate'' \<Longrightarrow> length row \<noteq> length (validators self) \<Longrightarrow>
   validateRow self row = Inr (- 2, self)"
  by (simp add: validateRow_def)

theorem shape_mismatch_first_witness:
  "name sample \<noteq> ''novalidate'' \<and> length [''12345678X'', ''''] \<noteq> length (validators sample) \<and>
   validateRow sample [''12345678X'', ''''] = Inr (- 2, sample)"
  using shape_mismatch_first [of sample "[''12345678X'', '''']"]
  by (simp add: sample_def instance_of_def sampleRules_def)

text \<open>
  C7. The validator named \<open>novalidate\<close> answers \<open>-1\<close> (good row) for every row without
  looking at it, and a run with it skips the check of the header length: every data row,
  whatever its shape, is written unchanged to the good file.
\<close>

theorem novalidate_accepts_all:
  "name self = ''novalidate'' \<Longrightarrow>
   validateRow self row = Inr (- 1, self) \<and>
   run self (headerRow # rows) =
     (None, \<lparr> currentValidator = getHeaderNames self headerRow,
              goodDataFile = headerRow # rows,
              badDataFile = [headerRow @ [''ERROR_MESSAGE'']],
              goodRowCounter = int (length rows), badRowCounter = 0,
              totalRowCounter = int (length rows) \<rparr>)"
  by (simp add: validateRow_def run_def run_rows_novalidate getHeaderNames_name)

theorem novalidate_accepts_all_witness:
  "name noValidate = ''novalidate'' \<and>
   validateRow noValidate [''x'', '''', ''y''] = Inr (- 1, noValidate) \<and>
   fst (run noValidate [[''a'', ''b''], [], [''x'', '''', ''y'']]) = None \<and>
   goodDataFile (snd (run noValidate [[''a'', ''b''], [], [''x'', '''', ''y'']])) =
     [[''a'', ''b''], [], [''x'', '''', ''y'']]"
  using novalidate_accepts_all [of noValidate "[''x'', '''', ''y'']" "[''a'', ''b'']" "[[], [''x'', '''', ''y'']]"]
  by (simp add: noValidate_def instance_of_def)

section \<open>The allowance of empty fields\<close>


text \<open>
  When the fields of a prefix of the row all pass and the count of empty fields reaches
  \<open>maxEmptyFields\<close> within it, the loop stops there with \<open>-3\<close>.
\<close>

lemma loop_too_many_prefix:
  "(\<forall>j<length pre. validateField s (int (idx + j)) (strip (pre ! j)) = Inr True) \<Longrightarrow>
   1 \<le> numEmpty pre \<Longrightarrow> maxEmptyFields s \<le> ne + int (numEmpty pre) \<Longrightarrow>
   validateRow_loop s (pre @ rest) idx ne = Inr (- 3, s)"
proof (induction pre arbitrary: idx ne)
  case Nil
  then show ?case by (simp add: numEmpty_Nil)
next
  case (Cons f pre)
  have h0: "validateField s (int idx) (strip f) = Inr True"
    using Cons.prems(1) [rule_format, of 0] by simp
  have hrest: "\<forall>j<length pre. validateField s (int (Suc idx + j)) (strip (pre ! j)) = Inr True"
    using Cons.prems(1) by (metis Suc_less_eq add_Suc_shift length_Cons nth_Cons_Suc)
  show ?case
  proof (cases "strip f = []")
    case True
    note empty = this
    show ?thesis
    proof (cases "maxEmptyFields s \<le> ne + 1")
      case True
      with empty h0 show ?thesis by simp
    next
      case False
      with Cons.prems empty
      have "1 \<le> numEmpty pre" "maxEmptyFields s \<le> (ne + 1) + int (numEmpty pre)"
        by (simp_all add: numEmpty_Cons)
      from Cons.IH [OF hrest this] False empty h0 show ?thesis by simp
    qed
  next
    case False
    with Cons.prems have "1 \<le> numEmpty pre" "maxEmptyFields s \<le> ne + int (numEmpty pre)"
      by (simp_all add: numEmpty_Cons)
    from Cons.IH [OF hrest this] False h0 show ?thesis by simp
  qed
qed

lemma loop_all_pass:
  "(\<forall>j<length row. validateField s (int j) (strip (row ! j)) = Inr True) \<Longrightarrow>
   numEmpty row = 0 \<or> int (numEmpty row) < maxEmptyFields s \<Longrightarrow>
   validateRow_loop s row 0 0 = Inr (- 1, s)"
  using loop_prefix [of row s 0 0 "[]"] by simp

lemma inv_counter:
  "validator_inv s \<Longrightarrow> validateField s k f = Inr False \<Longrightarrow> \<exists>n. badFieldCounters s k = Some n"
proof -
  assume inv: "validator_inv s" and f: "validateField s k f = Inr False"
  from f have "map_of (validators s) k \<noteq> None"
    by (auto simp: validateField_def split: option.splits)
  then have "k \<in> fst ` set (validators s)" by (simp add: map_of_eq_None_iff)
  with inv have "k \<in> dom (badFieldCounters s)" by (simp add: validator_inv_def)
  then show ?thesis by auto
qed

lemma empty_field_check:
  "known_type (vtype fv) \<Longrightarrow> map_of (validators self) i = Some fv \<Longrightarrow>
   validateField self i [] = Inr (allowEmptyFields fv)"
  by (auto simp: known_type_def validateField_def validateString_def validateRegex_def
      validateLength_def validateABAChecksum_def)

text \<open>
  C1 (as the code has it). Let the validator be other than \<open>novalidate\<close>, with \<open>N\<close>
  configured fields, and let the row have \<open>N\<close> fields. The allowance of empty fields is
  tested with \<open>numEmptyFields >= N - 1\<close>, and only when an empty field is met. So a row
  whose fields all pass their validators is a good row (\<open>-1\<close>) when it has no empty field
  or fewer than \<open>N - 1\<close> of them, and has too many empty fields (\<open>-3\<close>) when it has at
  least one and at least \<open>N - 1\<close> of them; in particular a nonempty row of empty fields
  that all pass their validators gets \<open>-3\<close>. With a single validator, at position 0 and
  of one of the four types, an empty field gets \<open>-3\<close> when the validator allows empty
  fields and is reported as the failing field 0, its counter incremented, when it does not.
\<close>

theorem empty_budget:
  assumes "validator_inv self" "name self \<noteq> ''novalidate''"
    "length row = length (validators self)"
  shows
   "((\<forall>j<length row. validateField self (int j) (strip (row ! j)) = Inr True) \<and>
      (numEmpty row = 0 \<or> int (numEmpty row) < int (length (validators self)) - 1) \<longrightarrow>
        validateRow self row = Inr (- 1, self)) \<and>
    ((\<forall>j<length row. validateField self (int j) (strip (row ! j)) = Inr True) \<and>
      1 \<le> numEmpty row \<and> int (length (validators self)) - 1 \<le> int (numEmpty row) \<longrightarrow>
        validateRow self row = Inr (- 3, self)) \<and>
    ((\<forall>j<length row. validateField self (int j) (strip (row ! j)) = Inr True) \<and>
      row \<noteq> [] \<and> (\<forall>raw \<in> set row. strip raw = []) \<longrightarrow>
        validateRow self row = Inr (- 3, self)) \<and>
    (\<forall>fv raw. validators self = [(0, fv)] \<and> known_type (vtype fv) \<and> row = [raw] \<and> strip raw = [] \<longrightarrow>
        (allowEmptyFields fv \<longrightarrow> validateRow self row = Inr (- 3, self)) \<and>
        (\<not> allowEmptyFields fv \<longrightarrow>
           (\<exists>n. badFieldCounters self 0 = Some n \<and>
                validateRow self row =
                  Inr (0, self\<lparr>badFieldCounters := (badFieldCounters self)(0 \<mapsto> n + 1)\<rparr>))))"
proof -
  from assms(1) have m: "maxEmptyFields self = int (length (validators self)) - 1"
    by (simp add: validator_inv_def)
  from assms(2,3) have v: "validateRow self row = validateRow_loop self row 0 0"
    by (simp add: validateRow_def)
  have a: "(\<forall>j<length row. validateField self (int j) (strip (row ! j)) = Inr True) \<and>
      (numEmpty row = 0 \<or> int (numEmpty row) < int (length (validators self)) - 1) \<longrightarrow>
        validateRow self row = Inr (- 1, self)"
    using loop_all_pass [of row self] by (simp add: v m)
  have b: "(\<forall>j<length row. validateField self (int j) (strip (row ! j)) = Inr True) \<and>
      1 \<le> numEmpty row \<and> int (length (validators self)) - 1 \<le> int (numEmpty row) \<longrightarrow>
        validateRow self row = Inr (- 3, self)"
    using loop_too_many_prefix [of row self 0 0 "[]"] by (simp add: v m)
  have c: "(\<forall>j<length row. validateField self (int j) (strip (row ! j)) = Inr True) \<and>
      row \<noteq> [] \<and> (\<forall>raw \<in> set row. strip raw = []) \<longrightarrow>
        validateRow self row = Inr (- 3, self)"
  proof (intro impI)
    assume h: "(\<forall>j<length row. validateField self (int j) (strip (row ! j)) = Inr True) \<and>
      row \<noteq> [] \<and> (\<forall>raw \<in> set row. strip raw = [])"
    then have "numEmpty row = length row" by (simp add: numEmpty_def)
    moreover from h have "1 \<le> length row" by (cases row) simp_all
    ultimately have "1 \<le> numEmpty row \<and> int (length (validators self)) - 1 \<le> int (numEmpty row)"
      using assms(3) by simp
    with b h show "validateRow self row = Inr (- 3, self)" by blast
  qed
  have d: "\<forall>fv raw. validators self = [(0, fv)] \<and> known_type (vtype fv) \<and> row = [raw] \<and> strip raw = [] \<longrightarrow>
        (allowEmptyFields fv \<longrightarrow> validateRow self row = Inr (- 3, self)) \<and>
        (\<not> allowEmptyFields fv \<longrightarrow>
           (\<exists>n. badFieldCounters self 0 = Some n \<and>
                validateRow self row =
                  Inr (0, self\<lparr>badFieldCounters := (badFieldCounters self)(0 \<mapsto> n + 1)\<rparr>)))"
  proof (intro allI impI)
    fix fv raw
    assume h: "validators self = [(0, fv)] \<and> known_type (vtype fv) \<and> row = [raw] \<and> strip raw = []"
    then have mo: "map_of (validators self) 0 = Some fv" by simp
    from h empty_field_check [OF _ mo] have vf: "validateField self 0 [] = Inr (allowEmptyFields fv)"
      by simp
    from h m have m0: "maxEmptyFields self = 0" by simp
    from h v have v1: "validateRow self [raw] = validateRow_loop self [raw] 0 0" by simp
    show "(allowEmptyFields fv \<longrightarrow> validateRow self row = Inr (- 3, self)) \<and>
        (\<not> allowEmptyFields fv \<longrightarrow>
           (\<exists>n. badFieldCounters self 0 = Some n \<and>
                validateRow self row =
                  Inr (0, self\<lparr>badFieldCounters := (badFieldCounters self)(0 \<mapsto> n + 1)\<rparr>)))"
    proof (intro conjI impI)
      assume "allowEmptyFields fv"
      with h vf m0 show "validateRow self row = Inr (- 3, self)" by (simp add: v1)
    next
      assume na: "\<not> allowEmptyFields fv"
      with vf have "validateField self 0 [] = Inr False" by simp
      from inv_counter [OF assms(1) this] obtain n where n: "badFieldCounters self 0 = Some n" by blast
      with h vf na have "validateRow self row =
                  Inr (0, self\<lparr>badFieldCounters := (badFieldCounters self)(0 \<mapsto> n + 1)\<rparr>)"
        by (simp add: v1)
      with n show "\<exists>n. badFieldCounters self 0 = Some n \<and>
                validateRow self row =
                  Inr (0, self\<lparr>badFieldCounters := (badFieldCounters self)(0 \<mapsto> n + 1)\<rparr>)" by blast
    qed
  qed
  from a b c d show ?thesis by blast
qed


text \<open>The rows of the claim under the sample configuration, evaluated.\<close>

lemmas eval_defs =
  strip_def isspace_def isdecimal_def isdigit_def isdigit_char_def int_of_digit_def
  validateField_def validateString_def validateRegex_def validateLength_def
  validateABAChecksum_def validateRow_def numEmpty_def validator_inv_def
  rule_def instance_of_def


theorem empty_budget_witness:
  "validator_inv sample \<and> name sample \<noteq> ''novalidate'' \<and>
   length [''Bob'', '' '', ''1234''] = length (validators sample) \<and>
   validateField sample 0 (strip ''Bob'') = Inr True \<and>
   validateField sample 1 (strip '' '') = Inr True \<and>
   validateField sample 2 (strip ''1234'') = Inr True \<and>
   numEmpty [''Bob'', '' '', ''1234''] = 1 \<and>
   validateRow sample [''Bob'', '' '', ''1234''] = Inr (- 1, sample)"
proof -
  let ?row = "[''Bob'', '' '', ''1234'']"
  have i: "validator_inv sample" by (auto simp: eval_defs sample_def sampleRules_def)
  have n: "name sample \<noteq> ''novalidate''" by (simp add: sample_def instance_of_def)
  have l: "length ?row = length (validators sample)"
    by (simp add: sample_def instance_of_def sampleRules_def)
  have f0: "validateField sample 0 (strip ''Bob'') = Inr True"
    by (simp add: eval_defs sample_def sampleRules_def)
  have f1: "validateField sample 1 (strip '' '') = Inr True"
    by (simp add: eval_defs sample_def sampleRules_def)
  have f2: "validateField sample 2 (strip ''1234'') = Inr True"
    by (simp add: eval_defs sample_def sampleRules_def)
  have e: "numEmpty ?row = 1" by (simp add: eval_defs)
  have "\<forall>j<length ?row. validateField sample (int j) (strip (?row ! j)) = Inr True"
  proof (intro allI impI)
    fix j assume "j < length ?row"
    then have "j = 0 \<or> j = 1 \<or> j = 2" by auto
    with f0 f1 f2 show "validateField sample (int j) (strip (?row ! j)) = Inr True" by auto
  qed
  moreover have "int (numEmpty ?row) < int (length (validators sample)) - 1"
    by (simp add: e) (simp add: sample_def instance_of_def sampleRules_def)
  ultimately have "validateRow sample ?row = Inr (- 1, sample)"
    using empty_budget [OF i n l] by blast
  with i n l f0 f1 f2 e show ?thesis by simp
qed

text \<open>
  With two configured fields a row with one empty field (at most \<open>N - 1\<close>), all fields
  passing, is not a good row; and with a single validator that does not allow empty
  fields the empty row is reported as a failure of field 0, not as too many empty fields.
\<close>

theorem empty_budget_counterexample:
  "validator_inv pair \<and> name pair \<noteq> ''novalidate'' \<and>
   length ['''', ''x''] = length (validators pair) \<and>
   validateField pair 0 (strip '''') = Inr True \<and>
   validateField pair 1 (strip ''x'') = Inr True \<and>
   int (numEmpty ['''', ''x'']) \<le> int (length (validators pair)) - 1 \<and>
   validateRow pair ['''', ''x''] = Inr (- 3, pair) \<and>
   validator_inv single \<and> name single \<noteq> ''novalidate'' \<and>
   length (validators single) = 1 \<and> strip '''' = [] \<and>
   validateRow single [''''] = Inr (0, single\<lparr>badFieldCounters := [0 \<mapsto> 1]\<rparr>)"
  by (auto simp: eval_defs pair_def pairRules_def single_def singleRules_def)

section \<open>The first failing field\<close>

lemma loop_first_failure:
  assumes "i < length row"
    "\<forall>j<i. validateField s (int j) (strip (row ! j)) = Inr True"
    "validateField s (int i) (strip (row ! i)) = Inr False"
    "numEmpty (take i row) = 0 \<or> int (numEmpty (take i row)) < maxEmptyFields s"
    "badFieldCounters s (int i) = Some n"
  shows "validateRow_loop s row 0 0 =
           Inr (int i, s\<lparr>badFieldCounters := (badFieldCounters s)(int i \<mapsto> n + 1)\<rparr>)"
proof -
  have split: "row = take i row @ (row ! i # drop (Suc i) row)"
    using assms(1) by (simp add: Cons_nth_drop_Suc)
  have pass: "\<forall>j<length (take i row). validateField s (int (0 + j)) (strip (take i row ! j)) = Inr True"
    using assms(1,2) by simp
  have "validateRow_loop s (take i row @ (row ! i # drop (Suc i) row)) 0 0 =
        validateRow_loop s (row ! i # drop (Suc i) row) (0 + length (take i row))
          (0 + int (numEmpty (take i row)))"
    using assms(4) by (intro loop_prefix [OF pass]) simp
  also have "\<dots> = Inr (int i, s\<lparr>badFieldCounters := (badFieldCounters s)(int i \<mapsto> n + 1)\<rparr>)"
    using assms(1,3,5) by (simp add: min_def)
  finally show ?thesis using split by simp
qed

lemma loop_error_at:
  assumes "i < length row"
    "\<forall>j<i. validateField s (int j) (strip (row ! j)) = Inr True"
    "validateField s (int i) (strip (row ! i)) = Inl e"
    "numEmpty (take i row) = 0 \<or> int (numEmpty (take i row)) < maxEmptyFields s"
  shows "validateRow_loop s row 0 0 = Inl e"
proof -
  have split: "row = take i row @ (row ! i # drop (Suc i) row)"
    using assms(1) by (simp add: Cons_nth_drop_Suc)
  have pass: "\<forall>j<length (take i row). validateField s (int (0 + j)) (strip (take i row ! j)) = Inr True"
    using assms(1,2) by simp
  have "validateRow_loop s (take i row @ (row ! i # drop (Suc i) row)) 0 0 =
        validateRow_loop s (row ! i # drop (Suc i) row) (0 + length (take i row))
          (0 + int (numEmpty (take i row)))"
    using assms(4) by (intro loop_prefix [OF pass]) simp
  also have "\<dots> = Inl e"
    using assms(1,3) by (simp add: min_def)
  finally show ?thesis using split by simp
qed

lemma loop_budget_before:
  assumes "i \<le> length row"
    "\<forall>j<i. validateField s (int j) (strip (row ! j)) = Inr True"
    "1 \<le> numEmpty (take i row)" "maxEmptyFields s \<le> int (numEmpty (take i row))"
  shows "validateRow_loop s row 0 0 = Inr (- 3, s)"
proof -
  have pass: "\<forall>j<length (take i row). validateField s (int (0 + j)) (strip (take i row ! j)) = Inr True"
    using assms(1,2) by simp
  have "validateRow_loop s (take i row @ drop i row) 0 0 = Inr (- 3, s)"
    using assms(3,4) by (intro loop_too_many_prefix [OF pass]) simp_all
  then show ?thesis by simp
qed

text \<open>
  C5 (as the code has it). Let the validator be other than \<open>novalidate\<close>, the row of the
  right length, and \<open>i\<close> the lowest position whose stripped field fails its validator,
  all lower positions passing. When the empty fields before \<open>i\<close> have not used up the
  allowance (there is none, or fewer than \<open>N - 1\<close>), \<open>validateRow\<close> returns \<open>i\<close> and
  increments the failure counter of \<open>i\<close>, whether or not the field at \<open>i\<close> is itself
  empty, and whatever the fields after \<open>i\<close> are: any row \<open>row'\<close> that agrees with the
  row up to position \<open>i\<close> gets the same answer, so no later position is validated. When
  the empty fields before \<open>i\<close> reach \<open>N - 1\<close>, the answer is \<open>-3\<close> instead.
\<close>

theorem first_failure_wins:
  assumes "validator_inv self" "name self \<noteq> ''novalidate''"
    "length row = length (validators self)" "i < length row"
    "\<forall>j<i. validateField self (int j) (strip (row ! j)) = Inr True"
    "validateField self (int i) (strip (row ! i)) = Inr False"
    "length row' = length row" "take (Suc i) row' = take (Suc i) row"
  shows
    "(numEmpty (take i row) = 0 \<or> int (numEmpty (take i row)) < int (length (validators self)) - 1 \<longrightarrow>
        (\<exists>n. badFieldCounters self (int i) = Some n \<and>
             validateRow self row' =
               Inr (int i, self\<lparr>badFieldCounters := (badFieldCounters self)(int i \<mapsto> n + 1)\<rparr>))) \<and>
     (1 \<le> numEmpty (take i row) \<and> int (length (validators self)) - 1 \<le> int (numEmpty (take i row)) \<longrightarrow>
        validateRow self row' = Inr (- 3, self))"
proof -
  from assms(1) have m: "maxEmptyFields self = int (length (validators self)) - 1"
    by (simp add: validator_inv_def)
  from assms(2,3,7) have v: "validateRow self row' = validateRow_loop self row' 0 0"
    by (simp add: validateRow_def)
  have i': "i < length row'" using assms(4,7) by simp
  have tk: "take i row' = take i row"
    using assms(8) by (metis take_take min.absorb1 le_add2 plus_1_eq_Suc)
  have nth_eq: "\<And>j. j \<le> i \<Longrightarrow> row' ! j = row ! j"
  proof -
    fix j assume "j \<le> i"
    then have "j < Suc i" by simp
    then have "take (Suc i) row' ! j = row' ! j" "take (Suc i) row ! j = row ! j" by simp_all
    with assms(8) show "row' ! j = row ! j" by simp
  qed
  have pass: "\<forall>j<i. validateField self (int j) (strip (row' ! j)) = Inr True"
    using assms(5) nth_eq by simp
  have fail: "validateField self (int i) (strip (row' ! i)) = Inr False"
    using assms(6) nth_eq by simp
  from inv_counter [OF assms(1) assms(6)] obtain n where n: "badFieldCounters self (int i) = Some n"
    by blast
  show ?thesis
  proof (intro conjI impI)
    assume "numEmpty (take i row) = 0 \<or> int (numEmpty (take i row)) < int (length (validators self)) - 1"
    then have "numEmpty (take i row') = 0 \<or> int (numEmpty (take i row')) < maxEmptyFields self"
      by (simp add: tk m)
    from loop_first_failure [OF i' pass fail this n] n
    show "\<exists>n. badFieldCounters self (int i) = Some n \<and>
             validateRow self row' =
               Inr (int i, self\<lparr>badFieldCounters := (badFieldCounters self)(int i \<mapsto> n + 1)\<rparr>)"
      by (simp add: v)
  next
    assume "1 \<le> numEmpty (take i row) \<and> int (length (validators self)) - 1 \<le> int (numEmpty (take i row))"
    then have "1 \<le> numEmpty (take i row')" "maxEmptyFields self \<le> int (numEmpty (take i row'))"
      by (simp_all add: tk m)
    from loop_budget_before [OF less_imp_le [OF i'] pass this]
    show "validateRow self row' = Inr (- 3, self)" by (simp add: v)
  qed
qed


theorem first_failure_wins_witness:
  "validator_inv sample \<and> name sample \<noteq> ''novalidate'' \<and>
   length ['''', ''490000018'', ''1234''] = length (validators sample) \<and>
   validateField sample (int 0) (strip (['''', ''490000018'', ''1234''] ! 0)) = Inr False \<and>
   length ['''', ''12345678X'', ''''] = length ['''', ''490000018'', ''1234''] \<and>
   take (Suc 0) ['''', ''12345678X'', ''''] = take (Suc 0) ['''', ''490000018'', ''1234''] \<and>
   numEmpty (take 0 ['''', ''490000018'', ''1234'']) = 0 \<and>
   validateRow sample ['''', ''12345678X'', ''''] =
     Inr (0, sample\<lparr>badFieldCounters := (badFieldCounters sample)(0 \<mapsto> 1)\<rparr>)"
proof -
  let ?row = "['''', ''490000018'', ''1234'']"
  let ?row' = "['''', ''12345678X'', '''']"
  have i: "validator_inv sample" by (auto simp: eval_defs sample_def sampleRules_def)
  have n: "name sample \<noteq> ''novalidate''" by (simp add: sample_def instance_of_def)
  have l: "length ?row = length (validators sample)"
    by (simp add: sample_def instance_of_def sampleRules_def)
  have b: "(0::nat) < length ?row" by simp
  have p: "\<forall>j<(0::nat). validateField sample (int j) (strip (?row ! j)) = Inr True" by simp
  have f: "validateField sample (int 0) (strip (?row ! 0)) = Inr False"
    by (simp add: eval_defs sample_def sampleRules_def)
  have l': "length ?row' = length ?row" by simp
  have t: "take (Suc 0) ?row' = take (Suc 0) ?row" by simp
  have e: "numEmpty (take 0 ?row) = 0" by (simp add: numEmpty_def)
  have c: "badFieldCounters sample 0 = Some 0"
    by (simp add: sample_def instance_of_def sampleRules_def)
  from first_failure_wins [OF i n l b p f l' t] e c
  have "validateRow sample ?row' =
     Inr (0, sample\<lparr>badFieldCounters := (badFieldCounters sample)(0 \<mapsto> 1)\<rparr>)"
    by simp
  with i n l f l' t e show ?thesis by simp
qed

text \<open>
  With two configured fields, the first allowing empty fields and the second not, the
  row of two empty fields has position 1 as its lowest failing position, and the answer
  is \<open>-3\<close>: the empty field at position 0 has used up the allowance.
\<close>

theorem first_failure_wins_counterexample:
  "validator_inv pair \<and> name pair \<noteq> ''novalidate'' \<and>
   length ['''', ''''] = length (validators pair) \<and>
   validateField pair 0 (strip (['''', ''''] ! 0)) = Inr True \<and>
   validateField pair 1 (strip (['''', ''''] ! 1)) = Inr False \<and>
   validateRow pair ['''', ''''] = Inr (- 3, pair)"
  by (auto simp: eval_defs pair_def pairRules_def)

section \<open>The state of a rule set\<close>

lemma loop_frame:
  "validateRow_loop s row idx ne = Inr (result, s') \<Longrightarrow>
   (result < 0 \<and> s' = s) \<or>
   (0 \<le> result \<and> (\<exists>n. badFieldCounters s result = Some n \<and>
        s' = s\<lparr>badFieldCounters := (badFieldCounters s)(result \<mapsto> n + 1)\<rparr>))"
proof (induction row arbitrary: idx ne)
  case Nil
  then show ?case by simp
next
  case (Cons f row)
  show ?case
  proof (cases "validateField s (int idx) (strip f)")
    case (Inl e)
    with Cons.prems show ?thesis by simp
  next
    case (Inr ok)
    show ?thesis
    proof (cases ok)
      case False
      with Inr have vf: "validateField s (int idx) (strip f) = Inr False" by simp
      show ?thesis
      proof (cases "badFieldCounters s (int idx)")
        case None
        with vf Cons.prems show ?thesis by simp
      next
        case (Some n)
        with vf Cons.prems have r: "result = int idx"
          and u: "s' = s\<lparr>badFieldCounters := (badFieldCounters s)(int idx \<mapsto> n + 1)\<rparr>"
          by auto
        have "0 \<le> result" using r by simp
        moreover have "badFieldCounters s result = Some n" using r Some by simp
        moreover have "s' = s\<lparr>badFieldCounters := (badFieldCounters s)(result \<mapsto> n + 1)\<rparr>"
          using r u by simp
        ultimately show ?thesis by blast
      qed
    next
      case True
      with Inr Cons.prems Cons.IH show ?thesis by (auto split: if_splits)
    qed
  qed
qed

lemma validateRow_changes:
  assumes "validateRow s row = Inr (result, s')"
  shows "s' = s \<or> (\<exists>n. s' = s\<lparr>badFieldCounters := (badFieldCounters s)(result \<mapsto> n + 1)\<rparr>)"
proof (cases "name s = ''novalidate'' \<or> length row \<noteq> length (validators s)")
  case True
  with assms show ?thesis by (auto simp: validateRow_def split: if_splits)
next
  case False
  with assms have "validateRow_loop s row 0 0 = Inr (result, s')"
    by (simp add: validateRow_def)
  from loop_frame [OF this] show ?thesis by blast
qed

lemma validateRow_ruleset:
  assumes "validateRow s row = Inr (result, s')"
  shows "name s' = name s \<and> validators s' = validators s \<and> numFields s' = numFields s \<and>
         maxEmptyFields s' = maxEmptyFields s \<and> fieldNames s' = fieldNames s"
  using validateRow_changes [OF assms] by auto

lemma process_row_validator:
  "currentValidator (snd (process_row st row)) =
     (case validateRow (currentValidator st) row of
        Inl e \<Rightarrow> currentValidator st
      | Inr (result, cv) \<Rightarrow> cv)"
  by (simp add: process_row_def Let_def split: sum.splits prod.splits option.splits)

lemma process_row_ruleset:
  "name (currentValidator (snd (process_row st row))) = name (currentValidator st) \<and>
   validators (currentValidator (snd (process_row st row))) = validators (currentValidator st) \<and>
   numFields (currentValidator (snd (process_row st row))) = numFields (currentValidator st) \<and>
   maxEmptyFields (currentValidator (snd (process_row st row))) = maxEmptyFields (currentValidator st) \<and>
   fieldNames (currentValidator (snd (process_row st row))) = fieldNames (currentValidator st)"
proof (cases "validateRow (currentValidator st) row")
  case (Inl e)
  then show ?thesis by (simp add: process_row_validator)
next
  case (Inr p)
  obtain result cv where p: "p = (result, cv)" by (cases p)
  from validateRow_ruleset [OF Inr [unfolded p]] Inr p show ?thesis
    by (simp add: process_row_validator)
qed

lemma run_rows_ruleset:
  "name (currentValidator (snd (run_rows st rows))) = name (currentValidator st) \<and>
   validators (currentValidator (snd (run_rows st rows))) = validators (currentValidator st) \<and>
   numFields (currentValidator (snd (run_rows st rows))) = numFields (currentValidator st) \<and>
   maxEmptyFields (currentValidator (snd (run_rows st rows))) = maxEmptyFields (currentValidator st) \<and>
   fieldNames (currentValidator (snd (run_rows st rows))) = fieldNames (currentValidator st)"
proof (induction rows arbitrary: st)
  case Nil
  show ?case by simp
next
  case (Cons row rows)
  obtain e st1 where p: "process_row st row = (e, st1)" by (cases "process_row st row")
  from process_row_ruleset [of st row] p
  have q: "name (currentValidator st1) = name (currentValidator st) \<and>
   validators (currentValidator st1) = validators (currentValidator st) \<and>
   numFields (currentValidator st1) = numFields (currentValidator st) \<and>
   maxEmptyFields (currentValidator st1) = maxEmptyFields (currentValidator st) \<and>
   fieldNames (currentValidator st1) = fieldNames (currentValidator st)" by simp
  show ?case
  proof (cases e)
    case None
    with p have "run_rows st (row # rows) = run_rows st1 rows" by simp
    with Cons.IH [of st1] q show ?thesis by simp
  next
    case (Some err)
    with p have "run_rows st (row # rows) = (Some err, st1)" by simp
    with q show ?thesis by simp
  qed
qed

lemma header_loop_lookup:
  "header_loop names row idx k =
     (if int idx \<le> k \<and> k < int idx + int (length row) then Some (row ! nat (k - int idx))
      else names k)"
proof (induction row arbitrary: names idx)
  case Nil
  have c: "\<not> (int idx \<le> k \<and> k < int idx + int (length ([]::string list)))" by simp
  show ?case by (simp only: header_loop.simps c if_False)
next
  case (Cons label row)
  have step: "header_loop names (label # row) idx k =
      (if int (Suc idx) \<le> k \<and> k < int (Suc idx) + int (length row)
       then Some (row ! nat (k - int (Suc idx)))
       else (names(int idx \<mapsto> label)) k)"
    by (simp only: header_loop.simps Cons.IH)
  consider (lt) "k < int idx" | (eq) "k = int idx" | (gt) "int idx < k" by linarith
  then show ?case
  proof cases
    case lt
    then have a: "(int (Suc idx) \<le> k \<and> k < int (Suc idx) + int (length row)) = False"
      and b: "(int idx \<le> k \<and> k < int idx + int (length (label # row))) = False"
      and c: "k \<noteq> int idx" by simp_all
    show ?thesis unfolding step a b using c by simp
  next
    case eq
    then have a: "(int (Suc idx) \<le> k \<and> k < int (Suc idx) + int (length row)) = False"
      and b: "(int idx \<le> k \<and> k < int idx + int (length (label # row))) = True" by simp_all
    show ?thesis unfolding step a b using eq by simp
  next
    case gt
    then have c: "k \<noteq> int idx" by simp
    from gt have n: "nat (k - int idx) = Suc (nat (k - int (Suc idx)))" by simp
    from gt have ab: "(int (Suc idx) \<le> k \<and> k < int (Suc idx) + int (length row)) =
        (int idx \<le> k \<and> k < int idx + int (length (label # row)))" by auto
    show ?thesis unfolding step ab using c by (simp add: n)
  qed
qed

lemma init_fieldNames: "init rc vd = Inr s \<Longrightarrow> fieldNames s = Map.empty"
  by (auto simp: init_def split: if_splits option.splits sum.splits prod.splits)

text \<open>
  C9. The components of the instance that make up a rule set are its name, its
  validators, the two counts derived from them and the field names (the failure counters,
  which the class keeps in the same object, are the run's counters and not part of the
  rule set). Of these only \<open>fieldNames\<close> is ever written after construction, and it is
  written once: the constructor leaves it empty, \<open>getHeaderNames\<close> changes nothing
  but \<open>fieldNames\<close> and stores the header labels by position, \<open>validateRow\<close> leaves
  all five components as they were, and at the end of a run, however it ends, the
  current validator has the name, validators and counts it started with and the field
  names that the one call of \<open>getHeaderNames\<close> on the header row gave it.
\<close>

theorem fieldNames_only_mutable_state:
  "(init re_compile vd = Inr self \<longrightarrow> fieldNames self = Map.empty) \<and>
   getHeaderNames self headerRow =
     self\<lparr>fieldNames := fieldNames (getHeaderNames self headerRow)\<rparr> \<and>
   (\<forall>i<length headerRow. fieldNames (getHeaderNames self headerRow) (int i) = Some (headerRow ! i)) \<and>
   (validateRow self row = Inr (result, self') \<longrightarrow>
      name self' = name self \<and> validators self' = validators self \<and>
      numFields self' = numFields self \<and> maxEmptyFields self' = maxEmptyFields self \<and>
      fieldNames self' = fieldNames self) \<and>
   (name self = ''novalidate'' \<or> length headerRow = length (validators self) \<longrightarrow>
      name (currentValidator (snd (run self (headerRow # rows)))) = name self \<and>
      validators (currentValidator (snd (run self (headerRow # rows)))) = validators self \<and>
      numFields (currentValidator (snd (run self (headerRow # rows)))) = numFields self \<and>
      maxEmptyFields (currentValidator (snd (run self (headerRow # rows)))) = maxEmptyFields self \<and>
      fieldNames (currentValidator (snd (run self (headerRow # rows)))) =
        fieldNames (getHeaderNames self headerRow))"
proof (intro conjI impI allI)
  assume "init re_compile vd = Inr self"
  then show "fieldNames self = Map.empty" by (rule init_fieldNames)
next
  show "getHeaderNames self headerRow =
     self\<lparr>fieldNames := fieldNames (getHeaderNames self headerRow)\<rparr>"
    by (simp add: getHeaderNames_def)
next
  fix i assume i: "i < length headerRow"
  then have "0 < length headerRow" by (cases headerRow) simp_all
  then have "fieldNames (getHeaderNames self headerRow) =
      header_loop (fieldNames self) headerRow 0" by (simp add: getHeaderNames_def)
  with i show "fieldNames (getHeaderNames self headerRow) (int i) = Some (headerRow ! i)"
    by (simp add: header_loop_lookup)
next
  assume v: "validateRow self row = Inr (result, self')"
  from validateRow_ruleset [OF v] show "name self' = name self" "validators self' = validators self"
    "numFields self' = numFields self" "maxEmptyFields self' = maxEmptyFields self"
    "fieldNames self' = fieldNames self" by simp_all
next
  assume h: "name self = ''novalidate'' \<or> length headerRow = length (validators self)"
  let ?st = "\<lparr> currentValidator = getHeaderNames self headerRow, goodDataFile = [headerRow],
               badDataFile = [headerRow @ [''ERROR_MESSAGE'']],
               goodRowCounter = 0, badRowCounter = 0, totalRowCounter = 0 \<rparr>"
  from h have r: "run self (headerRow # rows) = run_rows ?st rows"
    by (auto simp: run_def)
  have g: "name (getHeaderNames self headerRow) = name self"
    "validators (getHeaderNames self headerRow) = validators self"
    "numFields (getHeaderNames self headerRow) = numFields self"
    "maxEmptyFields (getHeaderNames self headerRow) = maxEmptyFields self"
    by (simp_all add: getHeaderNames_def)
  from run_rows_ruleset [of ?st rows] g
  show "name (currentValidator (snd (run self (headerRow # rows)))) = name self"
    "validators (currentValidator (snd (run self (headerRow # rows)))) = validators self"
    "numFields (currentValidator (snd (run self (headerRow # rows)))) = numFields self"
    "maxEmptyFields (currentValidator (snd (run self (headerRow # rows)))) = maxEmptyFields self"
    "fieldNames (currentValidator (snd (run self (headerRow # rows)))) =
        fieldNames (getHeaderNames self headerRow)"
    by (simp_all add: r)
qed


theorem fieldNames_only_mutable_state_witness:
  "init no_compile \<lparr>dictName = Some ''sample'', dictValidators = Some sampleRules\<rparr> = Inr sample \<and>
   fieldNames sample 1 = None \<and>
   length [''name'', ''aba'', ''code''] = length (validators sample) \<and>
   validateRow sample ['''', ''490000018'', ''1234''] =
     Inr (0, sample\<lparr>badFieldCounters := (badFieldCounters sample)(0 \<mapsto> 1)\<rparr>) \<and>
   validators (sample\<lparr>badFieldCounters := (badFieldCounters sample)(0 \<mapsto> 1)\<rparr>) = validators sample \<and>
   fieldNames (currentValidator (snd (run sample
     [[''name'', ''aba'', ''code''], ['''', ''490000018'', ''1234''], [''Bob'', ''490000018'', ''1234'']]))) 1 =
     Some ''aba'' \<and>
   validators (currentValidator (snd (run sample
     [[''name'', ''aba'', ''code''], ['''', ''490000018'', ''1234''], [''Bob'', ''490000018'', ''1234'']]))) =
     validators sample"
proof -
  let ?header = "[''name'', ''aba'', ''code'']"
  let ?row = "['''', ''490000018'', ''1234'']"
  let ?rows = "[?row, [''Bob'', ''490000018'', ''1234'']]"
  let ?self' = "sample\<lparr>badFieldCounters := (badFieldCounters sample)(0 \<mapsto> 1)\<rparr>"
  note t = fieldNames_only_mutable_state [where re_compile = no_compile
      and vd = "\<lparr>dictName = Some ''sample'', dictValidators = Some sampleRules\<rparr>"
      and self = sample and headerRow = ?header and row = ?row and result = 0
      and self' = ?self' and rows = ?rows]
  have i: "init no_compile \<lparr>dictName = Some ''sample'', dictValidators = Some sampleRules\<rparr> = Inr sample"
    by (simp add: init_def sample_def instance_of_def sampleRules_def rule_def)
  with t have e: "fieldNames sample = Map.empty" by blast
  have l: "length ?header = length (validators sample)"
    by (simp add: sample_def instance_of_def sampleRules_def)
  have v: "validateRow sample ?row = Inr (0, ?self')"
    by (simp add: eval_defs sample_def sampleRules_def)
  with t have f: "validators ?self' = validators sample" by blast
  from t l have r: "fieldNames (currentValidator (snd (run sample (?header # ?rows)))) =
      fieldNames (getHeaderNames sample ?header)"
    and w: "validators (currentValidator (snd (run sample (?header # ?rows)))) = validators sample"
    by blast+
  from t have "\<forall>i<length ?header. fieldNames (getHeaderNames sample ?header) (int i) = Some (?header ! i)"
    by blast
  then have "(1::nat) < length ?header \<longrightarrow>
      fieldNames (getHeaderNames sample ?header) (int 1) = Some (?header ! 1)" by (rule spec)
  then have "fieldNames (getHeaderNames sample ?header) 1 = Some ''aba''" by simp
  with r have n: "fieldNames (currentValidator (snd (run sample (?header # ?rows)))) 1 = Some ''aba''"
    by simp
  from e have e1: "fieldNames sample 1 = None" by simp
  from i e1 l v f n w show ?thesis by blast
qed

section \<open>The annotation of a failing field\<close>

lemma process_row_field_failed:
  assumes "validateRow (currentValidator st) row = Inr (int i, cv)" "i < length row"
    "fieldNames cv (int i) = Some label"
  shows "process_row st row =
    (None, st\<lparr>totalRowCounter := totalRowCounter st + 1, currentValidator := cv,
              badRowCounter := badRowCounter st + 1,
              badDataFile := badDataFile st @
                [row @ [''BAD DATA IN FIELD: '' @ label @ '' VALUE: '' @
                        (if length (row ! i) > 0 then row ! i else ''EMPTY'')]]\<rparr>)"
  using assms by (simp add: process_row_def py_index_def Let_def)

text \<open>
  C10. When \<open>validateRow\<close> returns the index \<open>i\<close> of a failing field, the main loop
  appends the message built from the field name and, when the raw field \<open>row[i]\<close> has
  length greater than 0, the raw field itself, otherwise the word \<open>EMPTY\<close>. The test is
  on the raw field, not on the stripped one: a nonempty field of whitespace only strips
  to the empty string and is annotated with its whitespace.
\<close>

theorem raw_field_annotation:
  assumes "validateRow (currentValidator st) row = Inr (int i, cv)" "i < length row"
    "fieldNames cv (int i) = Some label"
  shows
   "process_row st row =
      (None, st\<lparr>totalRowCounter := totalRowCounter st + 1, currentValidator := cv,
                badRowCounter := badRowCounter st + 1,
                badDataFile := badDataFile st @
                  [row @ [''BAD DATA IN FIELD: '' @ label @ '' VALUE: '' @
                          (if length (row ! i) > 0 then row ! i else ''EMPTY'')]]\<rparr>) \<and>
    (row ! i \<noteq> [] \<and> list_all isspace (row ! i) \<longrightarrow>
       strip (row ! i) = [] \<and>
       badDataFile (snd (process_row st row)) =
         badDataFile st @ [row @ [''BAD DATA IN FIELD: '' @ label @ '' VALUE: '' @ row ! i]])"
proof -
  note p = process_row_field_failed [OF assms]
  show ?thesis
  proof (intro conjI impI)
    show "process_row st row =
      (None, st\<lparr>totalRowCounter := totalRowCounter st + 1, currentValidator := cv,
                badRowCounter := badRowCounter st + 1,
                badDataFile := badDataFile st @
                  [row @ [''BAD DATA IN FIELD: '' @ label @ '' VALUE: '' @
                          (if length (row ! i) > 0 then row ! i else ''EMPTY'')]]\<rparr>)"
      by (rule p)
  next
    assume "row ! i \<noteq> [] \<and> list_all isspace (row ! i)"
    then show "strip (row ! i) = []" by (simp add: strip_all_space)
  next
    assume "row ! i \<noteq> [] \<and> list_all isspace (row ! i)"
    then show "badDataFile (snd (process_row st row)) =
         badDataFile st @ [row @ [''BAD DATA IN FIELD: '' @ label @ '' VALUE: '' @ row ! i]]"
      by (simp add: p)
  qed
qed

theorem raw_field_annotation_witness:
  "validateRow (currentValidator sampleRun) [''  '', ''490000018'', ''1234''] =
     Inr (int 0, (currentValidator sampleRun)\<lparr>badFieldCounters :=
                    (badFieldCounters (currentValidator sampleRun))(0 \<mapsto> 1)\<rparr>) \<and>
   (0::nat) < length [''  '', ''490000018'', ''1234''] \<and>
   fieldNames (currentValidator sampleRun) (int 0) = Some ''name'' \<and>
   [''  '', ''490000018'', ''1234''] ! 0 \<noteq> [] \<and>
   list_all isspace ([''  '', ''490000018'', ''1234''] ! 0) \<and>
   badDataFile (snd (process_row sampleRun [''  '', ''490000018'', ''1234''])) =
     [[''name'', ''aba'', ''code'', ''ERROR_MESSAGE''],
      [''  '', ''490000018'', ''1234'', ''BAD DATA IN FIELD: name VALUE:   '']]"
proof -
  let ?row = "[''  '', ''490000018'', ''1234'']"
  let ?cv = "(currentValidator sampleRun)\<lparr>badFieldCounters :=
                    (badFieldCounters (currentValidator sampleRun))(0 \<mapsto> 1)\<rparr>"
  have v: "validateRow (currentValidator sampleRun) ?row = Inr (int 0, ?cv)"
    by (simp add: eval_defs sampleRun_def getHeaderNames_def sample_def sampleRules_def)
  have l: "(0::nat) < length ?row" by simp
  have f: "fieldNames ?cv (int 0) = Some ''name''"
    by (simp add: sampleRun_def getHeaderNames_def)
  have w: "?row ! 0 \<noteq> [] \<and> list_all isspace (?row ! 0)" by (simp add: isspace_def)
  from raw_field_annotation [OF v l f] w
  have "badDataFile (snd (process_row sampleRun ?row)) =
         badDataFile sampleRun @ [?row @ [''BAD DATA IN FIELD: '' @ ''name'' @ '' VALUE: '' @ ?row ! 0]]"
    by blast
  then have "badDataFile (snd (process_row sampleRun ?row)) =
     [[''name'', ''aba'', ''code'', ''ERROR_MESSAGE''],
      [''  '', ''490000018'', ''1234'', ''BAD DATA IN FIELD: name VALUE:   '']]"
    by (simp add: sampleRun_def)
  with v l f w show ?thesis by simp
qed

section \<open>A validator of unknown type\<close>

lemma run_rows_append:
  "run_rows st pre = (None, st') \<Longrightarrow> run_rows st (pre @ rows) = run_rows st' rows"
proof (induction pre arbitrary: st)
  case Nil
  then show ?case by simp
next
  case (Cons row pre)
  obtain r st1 where p: "process_row st row = (r, st1)" by (cases "process_row st row")
  show ?case
  proof (cases r)
    case None
    with p Cons.prems have "run_rows st1 pre = (None, st')" by simp
    from Cons.IH [OF this] p None show ?thesis by simp
  next
    case (Some e)
    with p Cons.prems show ?thesis by simp
  qed
qed

lemma process_row_error:
  "validateRow (currentValidator st) row = Inl e \<Longrightarrow>
   process_row st row = (Some e, st\<lparr>totalRowCounter := totalRowCounter st + 1\<rparr>)"
  by (simp add: process_row_def Let_def)

lemma init_loop_compiled:
  "list_all (\<lambda>(k, v). regex_ok rc v) vs \<Longrightarrow>
   init_loop rc vs c =
     Inr (map (\<lambda>(k, v). (k, compiled rc v)) vs, fold (\<lambda>(k, v) counters. counters(k \<mapsto> 0)) vs c)"
proof (induction vs arbitrary: c)
  case Nil
  then show ?case by simp
next
  case (Cons kv vs)
  obtain k v where kv: "kv = (k, v)" by (cases kv)
  from Cons.prems kv have ok: "regex_ok rc v" and rest: "list_all (\<lambda>(k, v). regex_ok rc v) vs"
    by simp_all
  note ih = Cons.IH [OF rest, of "c(k \<mapsto> 0)"]
  show ?case
  proof (cases "vtype v = ''re''")
    case False
    with kv show ?thesis by (simp add: compiled_def ih)
  next
    case True
    with ok obtain p m where p: "regex v = Some p" and m: "rc p = Some m"
      by (auto simp: regex_ok_def split: option.splits)
    with True kv show ?thesis by (simp add: compiled_def ih)
  qed
qed

lemma compiled_unknown: "\<not> known_type (vtype fv) \<Longrightarrow> compiled rc fv = fv"
  by (simp add: compiled_def known_type_def)

lemma map_of_compiled:
  "map_of vs k = Some fv \<Longrightarrow> \<not> known_type (vtype fv) \<Longrightarrow>
   map_of (map (\<lambda>(k, v). (k, compiled rc v)) vs) k = Some fv"
  by (simp add: map_of_map compiled_unknown)

text \<open>
  C8 (as the code has it). The constructor looks at the type of a validator only to
  compile the pattern of type \<open>'re'\<close>: whenever every regex validator has a pattern that
  compiles, the instance is constructed whatever the types of the validators are, and a
  validator of a type other than the four known ones is still at its position in it. Such
  a validator ends the program with \<open>sys.exit("ERROR!! BAD Validator Type" + type)\<close>
  when \<open>validateField\<close> is called on its position, that is while a data row is
  validated: \<open>validateRow\<close> raises it for a row of the right length whose earlier fields
  pass and do not use up the allowance of empty fields, and the run then ends at that
  row, after the rows before it have been processed and written.
\<close>

theorem unknown_type_exits_in_run:
  "(list_all (\<lambda>(k, v). regex_ok re_compile v) vs \<longrightarrow>
      init re_compile \<lparr>dictName = Some n, dictValidators = Some vs\<rparr> =
        Inr ((instance_of n vs)\<lparr>validators := map (\<lambda>(k, v). (k, compiled re_compile v)) vs\<rparr>) \<and>
      (\<forall>k fv. map_of vs k = Some fv \<and> \<not> known_type (vtype fv) \<longrightarrow>
         map_of (map (\<lambda>(k, v). (k, compiled re_compile v)) vs) k = Some fv)) \<and>
   (map_of (validators self) (int i) = Some fv \<and> \<not> known_type (vtype fv) \<longrightarrow>
      validateField self (int i) field = Inl (SysExit (''ERROR!! BAD Validator Type'' @ vtype fv)) \<and>
      (name self \<noteq> ''novalidate'' \<and> length row = length (validators self) \<and> i < length row \<and>
       (\<forall>j<i. validateField self (int j) (strip (row ! j)) = Inr True) \<and>
       (numEmpty (take i row) = 0 \<or> int (numEmpty (take i row)) < maxEmptyFields self) \<longrightarrow>
         validateRow self row = Inl (SysExit (''ERROR!! BAD Validator Type'' @ vtype fv)) \<and>
         (run_rows st pre = (None, st') \<and> currentValidator st' = self \<longrightarrow>
            run_rows st (pre @ row # rest) =
              (Some (SysExit (''ERROR!! BAD Validator Type'' @ vtype fv)),
               st'\<lparr>totalRowCounter := totalRowCounter st' + 1\<rparr>))))"
proof (intro conjI impI allI)
  assume "list_all (\<lambda>(k, v). regex_ok re_compile v) vs"
  then show "init re_compile \<lparr>dictName = Some n, dictValidators = Some vs\<rparr> =
        Inr ((instance_of n vs)\<lparr>validators := map (\<lambda>(k, v). (k, compiled re_compile v)) vs\<rparr>)"
    by (simp add: init_def init_loop_compiled instance_of_def)
next
  fix k fv'
  assume "map_of vs k = Some fv' \<and> \<not> known_type (vtype fv')"
  then show "map_of (map (\<lambda>(k, v). (k, compiled re_compile v)) vs) k = Some fv'"
    by (simp add: map_of_compiled)
next
  assume h: "map_of (validators self) (int i) = Some fv \<and> \<not> known_type (vtype fv)"
  then show vf: "validateField self (int i) field = Inl (SysExit (''ERROR!! BAD Validator Type'' @ vtype fv))"
    by (simp add: validateField_def known_type_def)
next
  assume h: "map_of (validators self) (int i) = Some fv \<and> \<not> known_type (vtype fv)"
  assume r: "name self \<noteq> ''novalidate'' \<and> length row = length (validators self) \<and> i < length row \<and>
       (\<forall>j<i. validateField self (int j) (strip (row ! j)) = Inr True) \<and>
       (numEmpty (take i row) = 0 \<or> int (numEmpty (take i row)) < maxEmptyFields self)"
  from h have vf: "validateField self (int i) (strip (row ! i)) = Inl (SysExit (''ERROR!! BAD Validator Type'' @ vtype fv))"
    by (simp add: validateField_def known_type_def)
  from r have "validateRow_loop self row 0 0 = Inl (SysExit (''ERROR!! BAD Validator Type'' @ vtype fv))"
    by (intro loop_error_at [where i = i] vf) simp_all
  with r show vr: "validateRow self row = Inl (SysExit (''ERROR!! BAD Validator Type'' @ vtype fv))"
    by (simp add: validateRow_def)
  assume s: "run_rows st pre = (None, st') \<and> currentValidator st' = self"
  with vr have "process_row st' row =
      (Some (SysExit (''ERROR!! BAD Validator Type'' @ vtype fv)), st'\<lparr>totalRowCounter := totalRowCounter st' + 1\<rparr>)"
    by (simp add: process_row_error)
  moreover from s have "run_rows st (pre @ row # rest) = run_rows st' (row # rest)"
    by (simp add: run_rows_append)
  ultimately show "run_rows st (pre @ row # rest) =
              (Some (SysExit (''ERROR!! BAD Validator Type'' @ vtype fv)),
               st'\<lparr>totalRowCounter := totalRowCounter st' + 1\<rparr>)"
    by simp
qed


theorem unknown_type_exits_in_run_witness:
  "list_all (\<lambda>(k, v). regex_ok any_compile v) mixedRules \<and>
   init any_compile \<lparr>dictName = Some ''mixed'', dictValidators = Some mixedRules\<rparr> = Inr mixed \<and>
   map_of mixedRules 2 = Some (rule ''bogus'' True) \<and>
   map_of (validators (currentValidator (snd (run_rows mixedRun [['''', ''x'', ''y'']])))) (int 2) =
     Some (rule ''bogus'' True) \<and>
   \<not> known_type (vtype (rule ''bogus'' True)) \<and>
   validateField (currentValidator (snd (run_rows mixedRun [['''', ''x'', ''y'']]))) (int 0)
     (strip ([''a'', ''x'', ''b''] ! 0)) = Inr True \<and>
   validateField (currentValidator (snd (run_rows mixedRun [['''', ''x'', ''y'']]))) (int 1)
     (strip ([''a'', ''x'', ''b''] ! 1)) = Inr True \<and>
   numEmpty (take 2 [''a'', ''x'', ''b'']) = 0 \<and>
   run_rows mixedRun [['''', ''x'', ''y'']] = (None, snd (run_rows mixedRun [['''', ''x'', ''y'']])) \<and>
   fst (run_rows mixedRun ([['''', ''x'', ''y'']] @ [''a'', ''x'', ''b''] # [[''c'', ''x'', ''d'']])) =
     Some (SysExit (''ERROR!! BAD Validator Type'' @ ''bogus''))"
proof -
  let ?st' = "snd (run_rows mixedRun [['''', ''x'', ''y'']])"
  let ?self = "currentValidator ?st'"
  let ?fv = "rule ''bogus'' True"
  let ?row = "[''a'', ''x'', ''b'']"
  have cv: "?self = (getHeaderNames mixed [''name'', ''ssn'', ''code''])\<lparr>badFieldCounters :=
      (badFieldCounters (getHeaderNames mixed [''name'', ''ssn'', ''code'']))(0 \<mapsto> 1)\<rparr>"
    by (simp add: eval_defs mixedRun_def mixed_def mixedRules_def compiled_def any_compile_def
        getHeaderNames_def process_row_def py_index_def Let_def)
  have a: "list_all (\<lambda>(k, v). regex_ok any_compile v) mixedRules"
    by (simp add: mixedRules_def rule_def regex_ok_def any_compile_def)
  have mo: "map_of mixedRules 2 = Some ?fv" by (simp add: mixedRules_def)
  have m: "map_of (validators ?self) (int 2) = Some ?fv"
    unfolding cv
    by (simp add: getHeaderNames_def mixed_def instance_of_def mixedRules_def compiled_def rule_def)
  have k: "\<not> known_type (vtype ?fv)" by (simp add: known_type_def rule_def)
  have n: "name ?self \<noteq> ''novalidate''"
    unfolding cv by (simp add: getHeaderNames_def mixed_def instance_of_def)
  have l: "length ?row = length (validators ?self)"
    unfolding cv by (simp add: getHeaderNames_def mixed_def instance_of_def mixedRules_def)
  have f0: "validateField ?self (int 0) (strip (?row ! 0)) = Inr True"
    unfolding cv
    by (simp add: eval_defs getHeaderNames_def mixed_def mixedRules_def compiled_def any_compile_def)
  have f1: "validateField ?self (int 1) (strip (?row ! 1)) = Inr True"
    unfolding cv
    by (simp add: eval_defs getHeaderNames_def mixed_def mixedRules_def compiled_def any_compile_def)
  have p: "\<forall>j<(2::nat). validateField ?self (int j) (strip (?row ! j)) = Inr True"
  proof (intro allI impI)
    fix j :: nat assume "j < 2"
    then have "j = 0 \<or> j = 1" by auto
    with f0 f1 show "validateField ?self (int j) (strip (?row ! j)) = Inr True" by auto
  qed
  have e: "numEmpty (take 2 ?row) = 0" by (simp add: eval_defs)
  have r: "run_rows mixedRun [['''', ''x'', ''y'']] = (None, ?st')"
    by (simp add: eval_defs mixedRun_def mixed_def mixedRules_def compiled_def any_compile_def
        getHeaderNames_def process_row_def py_index_def Let_def)
  note t = unknown_type_exits_in_run [where vs = mixedRules and re_compile = any_compile and n = "''mixed''"
      and self = ?self and i = 2 and fv = ?fv and field = "''b''" and row = ?row
      and st = mixedRun and pre = "[['''', ''x'', ''y'']]" and st' = ?st'
      and rest = "[[''c'', ''x'', ''d'']]"]
  from t a have i: "init any_compile \<lparr>dictName = Some ''mixed'', dictValidators = Some mixedRules\<rparr> =
     Inr mixed" unfolding mixed_def by blast
  have i2: "(2::nat) < length ?row" by simp
  from t m k n l i2 p e r
  have "run_rows mixedRun ([['''', ''x'', ''y'']] @ ?row # [[''c'', ''x'', ''d'']]) =
     (Some (SysExit (''ERROR!! BAD Validator Type'' @ vtype ?fv)),
      ?st'\<lparr>totalRowCounter := totalRowCounter ?st' + 1\<rparr>)"
    by blast
  then have x: "fst (run_rows mixedRun ([['''', ''x'', ''y'']] @ ?row # [[''c'', ''x'', ''d'']])) =
     Some (SysExit (''ERROR!! BAD Validator Type'' @ ''bogus''))"
    by (simp add: rule_def)
  from a i mo m k f0 f1 e r x show ?thesis by blast
qed

text \<open>
  A configuration with a regex validator and, at position 2, a validator of unknown type
  is constructed without error; the run processes the first data row, writes it to the
  bad file, and exits at the second.
\<close>

theorem unknown_type_exits_in_run_counterexample:
  "init any_compile \<lparr>dictName = Some ''mixed'', dictValidators = Some mixedRules\<rparr> = Inr mixed \<and>
   fst (run mixed [[''name'', ''ssn'', ''code''], ['''', ''x'', ''y''], [''a'', ''x'', ''b''], [''c'', ''x'', ''d'']]) =
     Some (SysExit ''ERROR!! BAD Validator Typebogus'') \<and>
   badDataFile (snd (run mixed [[''name'', ''ssn'', ''code''], ['''', ''x'', ''y''], [''a'', ''x'', ''b''], [''c'', ''x'', ''d'']])) =
     [[''name'', ''ssn'', ''code'', ''ERROR_MESSAGE''],
      ['''', ''x'', ''y'', ''BAD DATA IN FIELD: name VALUE: EMPTY'']] \<and>
   totalRowCounter (snd (run mixed [[''name'', ''ssn'', ''code''], ['''', ''x'', ''y''], [''a'', ''x'', ''b''], [''c'', ''x'', ''d'']])) = 2"
  by (simp add: eval_defs init_def mixed_def mixedRules_def compiled_def any_compile_def run_def
      getHeaderNames_def process_row_def py_index_def Let_def)

section \<open>The invariant of an instance\<close>

text \<open>
  The constructor establishes the invariant for a configuration whose field numbers are
  distinct (they are the keys of a dictionary), and \<open>getHeaderNames\<close> and
  \<open>validateRow\<close> keep it, so that it holds of the current validator throughout a run.
\<close>

lemma init_loop_keys:
  "init_loop rc vs c = Inr (vs', c') \<Longrightarrow>
   map fst vs' = map fst vs \<and> dom c' = dom c \<union> fst ` set vs"
proof (induction vs arbitrary: c vs' c')
  case Nil
  then show ?case by simp
next
  case (Cons kv vs)
  obtain k v where kv: "kv = (k, v)" by (cases kv)
  from Cons.prems kv obtain ws where
    r: "init_loop rc vs (c(k \<mapsto> 0)) = Inr (ws, c')" and w: "map fst vs' = k # map fst ws"
    by (auto simp: Let_def split: if_splits option.splits sum.splits prod.splits)
  from Cons.IH [OF r] have m: "map fst ws = map fst vs"
    and d: "dom c' = dom (c(k \<mapsto> 0)) \<union> fst ` set vs"
    by blast+
  have "dom (c(k \<mapsto> 0)) = insert k (dom c)" by (auto simp: dom_def fun_upd_def split: if_splits)
  with d have "dom c' = dom c \<union> fst ` set (kv # vs)" using kv by auto
  with m w kv show ?case by simp
qed

lemma init_establishes_inv:
  assumes "dictValidators vd = Some vs" "distinct (map fst vs)" "init rc vd = Inr s"
  shows "validator_inv s"
proof -
  from assms(1,3) obtain n vs' c' where
    l: "init_loop rc vs Map.empty = Inr (vs', c')" and
    s: "s = \<lparr> name = n, validators = vs', numFields = int (length vs),
              maxEmptyFields = int (length vs) - 1, badFieldCounters = c',
              fieldNames = Map.empty \<rparr>"
    by (auto simp: init_def split: if_splits option.splits sum.splits prod.splits)
  from init_loop_keys [OF l] have k: "map fst vs' = map fst vs" and d: "dom c' = fst ` set vs"
    by simp_all
  from k have len: "length vs' = length vs" by (metis length_map)
  from k have img: "fst ` set vs' = fst ` set vs" by (metis set_map)
  from k assms(2) have "distinct (map fst vs')" by simp
  with s len img d show ?thesis by (simp add: validator_inv_def)
qed

lemma validateRow_keeps_inv:
  assumes "validator_inv s" "validateRow s row = Inr (result, s')"
  shows "validator_inv s'"
proof -
  have fr: "s' = s \<or> (\<exists>n. badFieldCounters s result = Some n \<and>
        s' = s\<lparr>badFieldCounters := (badFieldCounters s)(result \<mapsto> n + 1)\<rparr>)"
  proof (cases "name s = ''novalidate'' \<or> length row \<noteq> length (validators s)")
    case True
    with assms(2) show ?thesis by (auto simp: validateRow_def split: if_splits)
  next
    case False
    with assms(2) have "validateRow_loop s row 0 0 = Inr (result, s')"
      by (simp add: validateRow_def)
    from loop_frame [OF this] show ?thesis by blast
  qed
  then show ?thesis
  proof
    assume "s' = s"
    with assms(1) show ?thesis by simp
  next
    assume "\<exists>n. badFieldCounters s result = Some n \<and>
        s' = s\<lparr>badFieldCounters := (badFieldCounters s)(result \<mapsto> n + 1)\<rparr>"
    then obtain n where n: "badFieldCounters s result = Some n"
      and u: "s' = s\<lparr>badFieldCounters := (badFieldCounters s)(result \<mapsto> n + 1)\<rparr>" by blast
    from n have "result \<in> dom (badFieldCounters s)" by auto
    then have "insert result (dom (badFieldCounters s)) = dom (badFieldCounters s)" by auto
    with assms(1) u show ?thesis by (simp add: validator_inv_def)
  qed
qed

lemma getHeaderNames_keeps_inv:
  "validator_inv s \<Longrightarrow> validator_inv (getHeaderNames s headerRow)"
  by (simp add: validator_inv_def getHeaderNames_def)

end
